theory Spec2Isabelle
  imports Main
begin

section \<open>Run-time values\<close>

text \<open>
  The service of \<^verbatim>\<open>manup.service.ts\<close> handles JSON documents. TypeScript's interfaces are
  erased at run time, so a document is a JSON tree; \<open>None\<close> of \<open>json option\<close> is
  JavaScript's \<^verbatim>\<open>undefined\<close>. Numbers are left out (they are floating point, and no field
  of \<^verbatim>\<open>ManUpData\<close> is one); an object is the list of its properties in order.
\<close>

datatype json =
    JNull
  | JBool bool
  | JString string
  | JArray "json list"
  | JObject "(string \<times> json) list"

datatype error =
    Error string
  | TypeError
  | SyntaxError
  | Failure string

text \<open>A promise is described by how it ends: \<open>Pending\<close> is a promise that never settles.\<close>

datatype 'a promise = Resolved 'a | Rejected error | Pending

text \<open>\<^verbatim>\<open>!x\<close> is \<open>\<not> truthy x\<close>.\<close>

fun truthy :: "json option \<Rightarrow> bool" where
  "truthy None = False"
| "truthy (Some JNull) = False"
| "truthy (Some (JBool b)) = b"
| "truthy (Some (JString s)) = (s \<noteq> [])"
| "truthy (Some (JArray xs)) = True"
| "truthy (Some (JObject kvs)) = True"

text \<open>
  Reading a property of \<^verbatim>\<open>undefined\<close> or \<^verbatim>\<open>null\<close> throws a TypeError. Of any other value,
  \<open>getprop x k\<close> is \<^verbatim>\<open>x.k\<close> for the names this service reads (\<^verbatim>\<open>ios\<close>, \<^verbatim>\<open>android\<close>,
  \<^verbatim>\<open>windows\<close>, \<^verbatim>\<open>enabled\<close>, \<^verbatim>\<open>minimum\<close>, \<^verbatim>\<open>latest\<close>, \<^verbatim>\<open>url\<close>): a boolean, a string or an
  array has none of them.
\<close>

fun nullish :: "json option \<Rightarrow> bool" where
  "nullish None = True"
| "nullish (Some JNull) = True"
| "nullish (Some v) = False"

fun getprop :: "json option \<Rightarrow> string \<Rightarrow> json option" where
  "getprop (Some (JObject kvs)) k = map_of kvs k"
| "getprop x k = None"

section \<open>The data model\<close>

datatype AlertType = MANDATORY | OPTIONAL | MAINTENANCE | NOP

record PlatformData =
  minimum :: string
  latest :: string
  url :: string
  enabled :: bool

record ManUpData =
  ios :: "PlatformData option"
  android :: "PlatformData option"
  windows :: "PlatformData option"

text \<open>The objects that the two interfaces describe.\<close>

definition PlatformData_json :: "PlatformData \<Rightarrow> json" where
  "PlatformData_json pd =
     JObject [(''minimum'', JString (minimum pd)), (''latest'', JString (latest pd)),
              (''url'', JString (url pd)), (''enabled'', JBool (enabled pd))]"

definition entry :: "string \<Rightarrow> PlatformData option \<Rightarrow> (string \<times> json) list" where
  "entry k e = (case e of None \<Rightarrow> [] | Some pd \<Rightarrow> [(k, PlatformData_json pd)])"

definition ManUpData_json :: "ManUpData \<Rightarrow> json" where
  "ManUpData_json m =
     JObject (entry ''ios'' (ios m) @ entry ''android'' (android m) @ entry ''windows'' (windows m))"

section \<open>The collaborators\<close>

text \<open>
  What the injected services answer during one check. \<open>http_get\<close> is
  \<^verbatim>\<open>http.get(config.url).map(r => r.json()).toPromise()\<close>; \<open>semver_lt\<close> is the comparison
  of the \<^verbatim>\<open>semver\<close> package, which throws on what is not a version; \<open>clicks\<close> are the
  buttons (by position) that the user presses on the alert, in order.
\<close>

record env =
  http_get :: "json promise"
  platform_ready :: "unit promise"
  platform_is :: "string \<Rightarrow> bool"
  getVersionNumber :: "string promise"
  getAppName :: "string promise"
  semver_lt :: "string \<Rightarrow> json option \<Rightarrow> error + bool"
  translate :: "(string \<Rightarrow> string option \<Rightarrow> string) option"
  clicks :: "nat list"

section \<open>evaluate\<close>

definition evaluate :: "env \<Rightarrow> json option \<Rightarrow> AlertType promise" where
  "evaluate e metadata =
     (if nullish metadata then Rejected TypeError
      else if \<not> truthy (getprop metadata ''enabled'') then Resolved MAINTENANCE
      else (case getVersionNumber e of
              Pending \<Rightarrow> Pending
            | Rejected err \<Rightarrow> Rejected err
            | Resolved version \<Rightarrow>
                (case semver_lt e version (getprop metadata ''minimum'') of
                   Inl err \<Rightarrow> Rejected err
                 | Inr True \<Rightarrow> Resolved MANDATORY
                 | Inr False \<Rightarrow>
                     (case semver_lt e version (getprop metadata ''latest'') of
                        Inl err \<Rightarrow> Rejected err
                      | Inr True \<Rightarrow> Resolved OPTIONAL
                      | Inr False \<Rightarrow> Resolved NOP))))"

section \<open>getPlatformData\<close>

definition getPlatformData :: "env \<Rightarrow> json option \<Rightarrow> error + json option" where
  "getPlatformData e metadata =
     (if \<not> truthy metadata then Inl (Error ''metadata does not exist'')
      else if platform_is e ''ios'' then Inr (getprop metadata ''ios'')
      else if platform_is e ''android'' then Inr (getprop metadata ''android'')
      else if platform_is e ''windows'' then Inr (getprop metadata ''windows'')
      else Inl (Error ''Unknown platform''))"

section \<open>JSON text\<close>

text \<open>
  \<^verbatim>\<open>JSON.stringify\<close> without indentation. A string is quoted as ECMAScript's
  QuoteJSONString does: the short escapes, \<^verbatim>\<open>\u00XX\<close> for the other characters below
  space, everything else as it is. Characters are the code units below 256.
\<close>

definition hex_digit :: "nat \<Rightarrow> char" where
  "hex_digit n = char_of (if n < 10 then 48 + n else 87 + n)"

definition escape_char :: "char \<Rightarrow> string" where
  "escape_char c =
     (if c = CHR 0x08 then [CHR 0x5C, CHR ''b'']
      else if c = CHR 0x09 then [CHR 0x5C, CHR ''t'']
      else if c = CHR 0x0A then [CHR 0x5C, CHR ''n'']
      else if c = CHR 0x0C then [CHR 0x5C, CHR ''f'']
      else if c = CHR 0x0D then [CHR 0x5C, CHR ''r'']
      else if c = CHR 0x22 then [CHR 0x5C, CHR 0x22]
      else if c = CHR 0x5C then [CHR 0x5C, CHR 0x5C]
      else if of_char c < (0x20 :: nat) then
        [CHR 0x5C, CHR ''u'', CHR ''0'', CHR ''0'',
         hex_digit (of_char c div 16), hex_digit (of_char c mod 16)]
      else [c])"

definition quote :: "string \<Rightarrow> string" where
  "quote s = CHR 0x22 # concat (map escape_char s) @ [CHR 0x22]"

fun commas :: "string list \<Rightarrow> string" where
  "commas [] = []"
| "commas [x] = x"
| "commas (x # y # ys) = x @ CHR '','' # commas (y # ys)"

fun JSON_stringify :: "json \<Rightarrow> string" where
  "JSON_stringify JNull = ''null''"
| "JSON_stringify (JBool b) = (if b then ''true'' else ''false'')"
| "JSON_stringify (JString s) = quote s"
| "JSON_stringify (JArray xs) = CHR ''['' # commas (map JSON_stringify xs) @ [CHR '']'']"
| "JSON_stringify (JObject kvs) =
     CHR ''{'' # commas (map (\<lambda>(k, v). quote k @ CHR '':'' # JSON_stringify v) kvs) @ [CHR ''}'']"

text \<open>
  \<^verbatim>\<open>JSON.parse\<close>: white space between tokens, the escapes of the grammar, and a property
  given twice keeps its first place and its last value. The recursion is bounded by the
  length of the text, which every nesting and every list element uses up. Outside the
  values modelled here, and so not read as JavaScript reads them: a text with a number,
  and an escape \<^verbatim>\<open>\uXXXX\<close> of a code unit from 256 on. JavaScript also moves the
  properties whose names are array indices to the front of an object; the order of the
  list is the order of the text.
\<close>

definition is_ws :: "char \<Rightarrow> bool" where
  "is_ws c = (c = CHR 0x20 \<or> c = CHR 0x09 \<or> c = CHR 0x0A \<or> c = CHR 0x0D)"

definition skip_ws :: "string \<Rightarrow> string" where
  "skip_ws s = dropWhile is_ws s"

fun strip :: "string \<Rightarrow> string \<Rightarrow> string option" where
  "strip [] s = Some s"
| "strip (p # ps) [] = None"
| "strip (p # ps) (c # cs) = (if p = c then strip ps cs else None)"

definition hex_value :: "char \<Rightarrow> nat option" where
  "hex_value c =
     (let n = (of_char c :: nat)
      in if 48 \<le> n \<and> n \<le> 57 then Some (n - 48)
         else if 97 \<le> n \<and> n \<le> 102 then Some (n - 87)
         else if 65 \<le> n \<and> n \<le> 70 then Some (n - 55)
         else None)"

definition hex4 :: "char \<Rightarrow> char \<Rightarrow> char \<Rightarrow> char \<Rightarrow> nat option" where
  "hex4 a b c d =
     (case (hex_value a, hex_value b, hex_value c, hex_value d) of
        (Some w, Some x, Some y, Some z) \<Rightarrow> Some (((w * 16 + x) * 16 + y) * 16 + z)
      | _ \<Rightarrow> None)"

definition unescape :: "char \<Rightarrow> char option" where
  "unescape x =
     (if x = CHR 0x22 then Some (CHR 0x22)
      else if x = CHR 0x5C then Some (CHR 0x5C)
      else if x = CHR ''/'' then Some (CHR ''/'')
      else if x = CHR ''b'' then Some (CHR 0x08)
      else if x = CHR ''f'' then Some (CHR 0x0C)
      else if x = CHR ''n'' then Some (CHR 0x0A)
      else if x = CHR ''r'' then Some (CHR 0x0D)
      else if x = CHR ''t'' then Some (CHR 0x09)
      else None)"

definition with_first :: "'a \<Rightarrow> ('a list \<times> string) option \<Rightarrow> ('a list \<times> string) option" where
  "with_first x r = (case r of None \<Rightarrow> None | Some (xs, s) \<Rightarrow> Some (x # xs, s))"

text \<open>The characters of a string literal after its opening quote, and the text after it.\<close>

fun parse_chars :: "string \<Rightarrow> (string \<times> string) option" where
  "parse_chars [] = None"
| "parse_chars (c # cs) =
     (if c = CHR 0x22 then Some ([], cs)
      else if c = CHR 0x5C then
        (case cs of
           [] \<Rightarrow> None
         | x # r \<Rightarrow>
             if x = CHR ''u'' then
               (case r of
                  h1 # h2 # h3 # h4 # r' \<Rightarrow>
                    (case hex4 h1 h2 h3 h4 of
                       None \<Rightarrow> None
                     | Some n \<Rightarrow> if n < 256 then with_first (char_of n) (parse_chars r') else None)
                | _ \<Rightarrow> None)
             else (case unescape x of
                     None \<Rightarrow> None
                   | Some y \<Rightarrow> with_first y (parse_chars r)))
      else if of_char c < (0x20 :: nat) then None
      else with_first c (parse_chars cs))"

fun put :: "string \<Rightarrow> json \<Rightarrow> (string \<times> json) list \<Rightarrow> (string \<times> json) list" where
  "put k v [] = [(k, v)]"
| "put k v ((k', v') # ps) = (if k' = k then (k, v) # ps else (k', v') # put k v ps)"

definition object_of :: "(string \<times> json) list \<Rightarrow> json" where
  "object_of kvs = JObject (foldl (\<lambda>ps (k, v). put k v ps) [] kvs)"

definition tagged :: "('a \<Rightarrow> json) \<Rightarrow> ('a \<times> string) option \<Rightarrow> (json \<times> string) option" where
  "tagged f r = (case r of None \<Rightarrow> None | Some (x, s) \<Rightarrow> Some (f x, s))"

fun parse_value :: "nat \<Rightarrow> string \<Rightarrow> (json \<times> string) option"
  and parse_elements :: "nat \<Rightarrow> string \<Rightarrow> (json list \<times> string) option"
  and parse_members :: "nat \<Rightarrow> string \<Rightarrow> ((string \<times> json) list \<times> string) option"
where
  "parse_value 0 s = None"
| "parse_value (Suc n) s =
     (case skip_ws s of
        [] \<Rightarrow> None
      | c # r \<Rightarrow>
          if c = CHR 0x22 then tagged JString (parse_chars r)
          else if c = CHR ''['' then
            (case skip_ws r of
               [] \<Rightarrow> None
             | c' # r' \<Rightarrow>
                 if c' = CHR '']'' then Some (JArray [], r')
                 else tagged JArray (parse_elements n r))
          else if c = CHR ''{'' then
            (case skip_ws r of
               [] \<Rightarrow> None
             | c' # r' \<Rightarrow>
                 if c' = CHR ''}'' then Some (JObject [], r')
                 else tagged object_of (parse_members n r))
          else (case strip ''null'' (c # r) of
                  Some r' \<Rightarrow> Some (JNull, r')
                | None \<Rightarrow>
                    (case strip ''true'' (c # r) of
                       Some r' \<Rightarrow> Some (JBool True, r')
                     | None \<Rightarrow>
                         (case strip ''false'' (c # r) of
                            Some r' \<Rightarrow> Some (JBool False, r')
                          | None \<Rightarrow> None))))"
| "parse_elements 0 s = None"
| "parse_elements (Suc n) s =
     (case parse_value n s of
        None \<Rightarrow> None
      | Some (v, r) \<Rightarrow>
          (case skip_ws r of
             [] \<Rightarrow> None
           | c # r' \<Rightarrow>
               if c = CHR '','' then with_first v (parse_elements n r')
               else if c = CHR '']'' then Some ([v], r')
               else None))"
| "parse_members 0 s = None"
| "parse_members (Suc n) s =
     (case skip_ws s of
        [] \<Rightarrow> None
      | c # r \<Rightarrow>
          if c = CHR 0x22 then
            (case parse_chars r of
               None \<Rightarrow> None
             | Some (k, r1) \<Rightarrow>
                 (case skip_ws r1 of
                    [] \<Rightarrow> None
                  | c1 # r2 \<Rightarrow>
                      if c1 = CHR '':'' then
                        (case parse_value n r2 of
                           None \<Rightarrow> None
                         | Some (v, r3) \<Rightarrow>
                             (case skip_ws r3 of
                                [] \<Rightarrow> None
                              | c3 # r4 \<Rightarrow>
                                  if c3 = CHR '','' then with_first (k, v) (parse_members n r4)
                                  else if c3 = CHR ''}'' then Some ([(k, v)], r4)
                                  else None))
                      else None))
          else None)"

definition JSON_parse :: "string \<Rightarrow> error + json" where
  "JSON_parse s =
     (case parse_value (length s) s of
        None \<Rightarrow> Inl SyntaxError
      | Some (v, r) \<Rightarrow> if skip_ws r = [] then Inr v else Inl SyntaxError)"

section \<open>The service\<close>

text \<open>
  The fields of \<^verbatim>\<open>ManUpService\<close> that change, and what the service does to the world.
  \<open>storage\<close> is the optional \<^verbatim>\<open>Storage\<close>, a key-value store of strings (\<open>None\<close> when
  the service was built without one); \<open>promises\<close> holds, by handle, how each promise
  made by \<^verbatim>\<open>validate\<close> ends; \<open>ready_calls\<close> counts the calls of \<^verbatim>\<open>platform.ready()\<close>,
  one for each run of the check; \<open>presented\<close> and \<open>launched\<close> record the alerts shown and
  the calls of \<^verbatim>\<open>iab.create\<close>.
\<close>

datatype action = ResolveIt | Launch "json option"

record button =
  caption :: string
  handler :: action

record alert =
  enableBackdropDismiss :: bool
  title :: string
  subTitle :: string
  buttons :: "button list"

record service =
  inProgress :: bool
  currentPromise :: "nat option"
  storage :: "(string \<rightharpoonup> string) option"
  promises :: "unit promise list"
  ready_calls :: nat
  presented :: "alert list"
  launched :: "(json option \<times> string) list"

definition STORAGE_KEY :: string where
  "STORAGE_KEY = ''com.nextfaze.ionic-manup''"

text \<open>
  \<^verbatim>\<open>storage.get\<close> of Ionic Storage resolves with the stored string, or with \<^verbatim>\<open>null\<close>
  (\<open>None\<close>) when nothing is stored under the key; \<^verbatim>\<open>JSON.parse\<close> reads its argument as
  a string, and \<^verbatim>\<open>null\<close> as the text \<^verbatim>\<open>null\<close>.
\<close>

definition ToString :: "string option \<Rightarrow> string" where
  "ToString data = (case data of None \<Rightarrow> ''null'' | Some t \<Rightarrow> t)"

definition settled :: "error + 'a \<Rightarrow> 'a promise" where
  "settled r = (case r of Inl err \<Rightarrow> Rejected err | Inr v \<Rightarrow> Resolved v)"

text \<open>A function that is not \<^verbatim>\<open>async\<close> throws (\<open>Inl\<close>) or returns its promise (\<open>Inr\<close>).\<close>

definition metadataFromStorage :: "service \<Rightarrow> error + json promise" where
  "metadataFromStorage s =
     (case storage s of
        Some st \<Rightarrow> Inr (settled (JSON_parse (ToString (st (STORAGE_KEY @ ''.manup'')))))
      | None \<Rightarrow> Inl (Error ''Storage not configured''))"

definition saveMetadata :: "json \<Rightarrow> service \<Rightarrow> error + (unit promise \<times> service)" where
  "saveMetadata metadata s =
     (case storage s of
        Some st \<Rightarrow>
          Inr (Resolved (),
               s\<lparr>storage := Some (st(STORAGE_KEY @ ''.manup'' \<mapsto> JSON_stringify metadata))\<rparr>)
      | None \<Rightarrow> Inl (Error ''Storage not configured''))"

text \<open>An \<^verbatim>\<open>async\<close> function ends as the promise it returns, or rejects with what it throws.\<close>

definition returned :: "error + 'a promise \<Rightarrow> 'a promise" where
  "returned r = (case r of Inl err \<Rightarrow> Rejected err | Inr p \<Rightarrow> p)"

definition metadata :: "env \<Rightarrow> service \<Rightarrow> json promise \<times> service" where
  "metadata e s =
     (case http_get e of
        Pending \<Rightarrow> (Pending, s)
      | Resolved response \<Rightarrow>
          (case storage s of
             None \<Rightarrow> (Resolved response, s)
           | Some st \<Rightarrow>
               (case saveMetadata response s of
                  Inr (saved, s') \<Rightarrow> (Resolved response, s')
                | Inl err \<Rightarrow> (returned (metadataFromStorage s), s)))
      | Rejected err \<Rightarrow> (returned (metadataFromStorage s), s))"

subsection \<open>The alerts\<close>

definition instant :: "env \<Rightarrow> string \<Rightarrow> string option \<Rightarrow> string \<Rightarrow> string" where
  "instant e key app builtin = (case translate e of Some tr \<Rightarrow> tr key app | None \<Rightarrow> builtin)"

definition update_button :: "env \<Rightarrow> json option \<Rightarrow> button" where
  "update_button e platformData =
     \<lparr>caption = instant e ''manup.buttons.update'' None ''Update'',
      handler = Launch platformData\<rparr>"

definition later_button :: "env \<Rightarrow> button" where
  "later_button e =
     \<lparr>caption = instant e ''manup.buttons.later'' None ''Not Now'', handler = ResolveIt\<rparr>"

definition maintenance_alert :: "env \<Rightarrow> string \<Rightarrow> alert" where
  "maintenance_alert e name =
     \<lparr>enableBackdropDismiss = False,
      title = instant e ''manup.maintenance.title'' (Some name) (name @ '' Unavailable''),
      subTitle = instant e ''manup.maintenance.text'' (Some name)
                   (name @ '' is currently unavailable. Please check back later''),
      buttons = []\<rparr>"

definition mandatory_alert :: "env \<Rightarrow> json option \<Rightarrow> string \<Rightarrow> alert" where
  "mandatory_alert e platformData name =
     \<lparr>enableBackdropDismiss = False,
      title = instant e ''manup.mandatory.title'' (Some name) ''Update Required'',
      subTitle = instant e ''manup.mandatory.text'' (Some name)
                   (''An update to '' @ name @ '' is required to continue.''),
      buttons = [update_button e platformData]\<rparr>"

definition optional_alert :: "env \<Rightarrow> json option \<Rightarrow> string \<Rightarrow> alert" where
  "optional_alert e platformData name =
     \<lparr>enableBackdropDismiss = False,
      title = instant e ''manup.optional.title'' (Some name) ''Update Available'',
      subTitle = instant e ''manup.optional.text'' (Some name)
                   (''An update to '' @ name @ '' is available. Would you like to update?''),
      buttons = [later_button e, update_button e platformData]\<rparr>"

text \<open>
  What the user's presses do to a presented alert: whether \<^verbatim>\<open>resolve\<close> was called, and the
  calls of \<^verbatim>\<open>iab.create\<close>. A handler that returns \<^verbatim>\<open>false\<close> keeps the alert open; after any
  other handler the alert is dismissed and takes no more presses. A press on a button the
  alert does not have cannot happen and is skipped; a handler that throws (reading
  \<^verbatim>\<open>url\<close> of \<^verbatim>\<open>undefined\<close> or \<^verbatim>\<open>null\<close>) leaves the alert as it is.
\<close>

fun interact :: "button list \<Rightarrow> nat list \<Rightarrow> bool \<times> (json option \<times> string) list" where
  "interact bs [] = (False, [])"
| "interact bs (i # is) =
     (if i < length bs then
        (case handler (bs ! i) of
           ResolveIt \<Rightarrow> (True, [])
         | Launch platformData \<Rightarrow>
             if nullish platformData then interact bs is
             else (fst (interact bs is),
                   (getprop platformData ''url'', ''_system'') # snd (interact bs is)))
      else interact bs is)"

text \<open>
  The three presentations: \<^verbatim>\<open>getAppName().then(name => new Promise(...))\<close>, whose
  executor creates and presents the alert.
\<close>

definition present :: "env \<Rightarrow> (string \<Rightarrow> alert) \<Rightarrow> service \<Rightarrow> unit promise \<times> service" where
  "present e create s =
     (case getAppName e of
        Pending \<Rightarrow> (Pending, s)
      | Rejected err \<Rightarrow> (Rejected err, s)
      | Resolved name \<Rightarrow>
          (if fst (interact (buttons (create name)) (clicks e)) then Resolved () else Pending,
           s\<lparr>presented := presented s @ [create name],
             launched := launched s @ snd (interact (buttons (create name)) (clicks e))\<rparr>))"

definition presentMaintenanceMode :: "env \<Rightarrow> service \<Rightarrow> unit promise \<times> service" where
  "presentMaintenanceMode e s = present e (maintenance_alert e) s"

definition presentMandatoryUpdate :: "env \<Rightarrow> json option \<Rightarrow> service \<Rightarrow> unit promise \<times> service" where
  "presentMandatoryUpdate e platformData s = present e (mandatory_alert e platformData) s"

definition presentOptionalUpdate :: "env \<Rightarrow> json option \<Rightarrow> service \<Rightarrow> unit promise \<times> service" where
  "presentOptionalUpdate e platformData s = present e (optional_alert e platformData) s"

text \<open>\<^verbatim>\<open>presentAlert\<close> has no case for \<^verbatim>\<open>NOP\<close> and returns \<^verbatim>\<open>undefined\<close> (\<open>None\<close>) there.\<close>

definition presentAlert ::
  "env \<Rightarrow> AlertType \<Rightarrow> json option \<Rightarrow> service \<Rightarrow> unit promise option \<times> service" where
  "presentAlert e type platformData s =
     (case type of
        MANDATORY \<Rightarrow> (Some (fst (presentMandatoryUpdate e platformData s)),
                      snd (presentMandatoryUpdate e platformData s))
      | OPTIONAL \<Rightarrow> (Some (fst (presentOptionalUpdate e platformData s)),
                     snd (presentOptionalUpdate e platformData s))
      | MAINTENANCE \<Rightarrow> (Some (fst (presentMaintenanceMode e s)),
                        snd (presentMaintenanceMode e s))
      | NOP \<Rightarrow> (None, s))"

subsection \<open>validate\<close>

text \<open>
  The executor of \<^verbatim>\<open>currentPromise\<close>: \<^verbatim>\<open>platform.ready().then(async () => ...)\<close>. The
  promise that \<^verbatim>\<open>then\<close> returns is dropped, so \<^verbatim>\<open>currentPromise\<close> settles only where the
  callback calls \<^verbatim>\<open>resolve\<close>: what the callback returns or throws does not reach it.
  \<open>check\<close> gives how \<^verbatim>\<open>currentPromise\<close> ends and the service after the callback has run.
\<close>

definition check :: "env \<Rightarrow> service \<Rightarrow> unit promise \<times> service" where
  "check e s =
     (case platform_ready e of
        Pending \<Rightarrow> (Pending, s)
      | Rejected err \<Rightarrow> (Pending, s)
      | Resolved u \<Rightarrow>
          (case fst (metadata e s) of
             Pending \<Rightarrow> (Pending, snd (metadata e s))
           | Rejected err \<Rightarrow> (Pending, snd (metadata e s))
           | Resolved md \<Rightarrow>
               if \<not> truthy (Some md) then (Resolved (), snd (metadata e s))
               else (case getPlatformData e (Some md) of
                       Inl err \<Rightarrow> (Pending, snd (metadata e s))
                     | Inr pd \<Rightarrow>
                         (case evaluate e pd of
                            Pending \<Rightarrow> (Pending, snd (metadata e s))
                          | Rejected err \<Rightarrow> (Pending, snd (metadata e s))
                          | Resolved result \<Rightarrow>
                              (case result of
                                 NOP \<Rightarrow> (Resolved (), snd (metadata e s))
                               | _ \<Rightarrow> (Pending,
                                        snd (presentAlert e result (Some md)
                                               (snd (metadata e s)))))))))"

text \<open>
  \<^verbatim>\<open>validate\<close> returns \<^verbatim>\<open>this.currentPromise\<close>; being \<^verbatim>\<open>async\<close>, what the caller holds
  ends as that promise does (\<open>outcome\<close>). Nothing in its \<^verbatim>\<open>try\<close> block throws: an
  exception in the executor rejects the promise being built, and a rejection of the
  returned promise is not an exception of the block.
\<close>

definition validate :: "env \<Rightarrow> service \<Rightarrow> nat option \<times> service" where
  "validate e s =
     (if \<not> inProgress s then
        (let s1 = s\<lparr>inProgress := True\<rparr>;
             s2 = s1\<lparr>ready_calls := ready_calls s1 + 1\<rparr>;
             s3 = snd (check e s2);
             h = length (promises s3)
         in (Some h, s3\<lparr>promises := promises s3 @ [fst (check e s2)], currentPromise := Some h\<rparr>))
      else (currentPromise s, s))"

definition outcome :: "nat option \<times> service \<Rightarrow> unit promise" where
  "outcome r =
     (case fst r of
        None \<Rightarrow> Resolved ()
      | Some h \<Rightarrow> if h < length (promises (snd r)) then promises (snd r) ! h else Pending)"

text \<open>The service as its constructor leaves it, with or without a storage.\<close>

definition new_service :: "(string \<rightharpoonup> string) option \<Rightarrow> service" where
  "new_service st =
     \<lparr>inProgress = False, currentPromise = None, storage = st, promises = [],
      ready_calls = 0, presented = [], launched = []\<rparr>"

text \<open>Calls of \<^verbatim>\<open>validate\<close> one after the other, each in the world of its moment.\<close>

fun validate_all :: "env list \<Rightarrow> service \<Rightarrow> nat option list \<times> service" where
  "validate_all [] s = ([], s)"
| "validate_all (e # es) s =
     (fst (validate e s) # fst (validate_all es (snd (validate e s))),
      snd (validate_all es (snd (validate e s))))"

section \<open>A device for the examples\<close>

text \<open>
  The theorems below hold for every comparison \<open>semver_lt\<close>. The examples use the
  comparison of \<^verbatim>\<open>semver\<close> on versions of the plain form MAJOR.MINOR.PATCH, where it
  compares the three numbers in order, and throws on everything else (the package also
  reads pre-release and build tags, which the examples do not use).
\<close>

definition digit :: "char \<Rightarrow> nat option" where
  "digit c =
     (let n = (of_char c :: nat) in if 48 \<le> n \<and> n \<le> 57 then Some (n - 48) else None)"

fun digits :: "nat \<Rightarrow> string \<Rightarrow> nat option" where
  "digits acc [] = Some acc"
| "digits acc (c # cs) =
     (case digit c of None \<Rightarrow> None | Some d \<Rightarrow> digits (acc * 10 + d) cs)"

definition numeric_id :: "string \<Rightarrow> nat option" where
  "numeric_id s =
     (if s = [] \<or> (1 < length s \<and> hd s = CHR ''0'') then None else digits 0 s)"

fun split_dots :: "string \<Rightarrow> string list" where
  "split_dots [] = [[]]"
| "split_dots (c # cs) =
     (if c = CHR ''.'' then [] # split_dots cs
      else (case split_dots cs of [] \<Rightarrow> [[c]] | f # fs \<Rightarrow> (c # f) # fs))"

definition version_of :: "string \<Rightarrow> (nat \<times> nat \<times> nat) option" where
  "version_of s =
     (case map numeric_id (split_dots s) of
        [Some a, Some b, Some c] \<Rightarrow> Some (a, b, c)
      | _ \<Rightarrow> None)"

fun below :: "nat \<times> nat \<times> nat \<Rightarrow> nat \<times> nat \<times> nat \<Rightarrow> bool" where
  "below (a, b, c) (a', b', c') = (a < a' \<or> (a = a' \<and> (b < b' \<or> (b = b' \<and> c < c'))))"

definition plain_lt :: "string \<Rightarrow> json option \<Rightarrow> error + bool" where
  "plain_lt v t =
     (case t of
        Some (JString w) \<Rightarrow>
          (case (version_of v, version_of w) of
             (Some a, Some b) \<Rightarrow> Inr (below a b)
           | _ \<Rightarrow> Inl TypeError)
      | _ \<Rightarrow> Inl TypeError)"

text \<open>
  A device of the given platform that runs the given version of ``App'', is ready, gets
  the given answer from the network, has no translations, and whose user presses the given
  buttons.
\<close>

definition device :: "string \<Rightarrow> string \<Rightarrow> json promise \<Rightarrow> nat list \<Rightarrow> env" where
  "device platform version response presses =
     \<lparr>http_get = response, platform_ready = Resolved (),
      platform_is = (\<lambda>p. p = platform), getVersionNumber = Resolved version,
      getAppName = Resolved ''App'', semver_lt = plain_lt, translate = None,
      clicks = presses\<rparr>"

definition policy :: PlatformData where
  "policy = \<lparr>minimum = ''2.0.0'', latest = ''3.0.0'', url = ''https://example.com/app'',
             enabled = True\<rparr>"

definition document :: json where
  "document = ManUpData_json \<lparr>ios = Some policy, android = None, windows = None\<rparr>"

text \<open>
  A value as JavaScript holds it: no object has two properties of one name.
\<close>

fun distinct_keys :: "json \<Rightarrow> bool" where
  "distinct_keys (JArray xs) = list_all distinct_keys xs"
| "distinct_keys (JObject kvs) =
     (distinct (map fst kvs) \<and> list_all (\<lambda>kv. distinct_keys (snd kv)) kvs)"
| "distinct_keys v = True"

text \<open>
  For the proofs: the characters a value's text can start with, and the text of one
  property of an object.
\<close>

definition starts_value :: "char \<Rightarrow> bool" where
  "starts_value c = (c = CHR ''n'' \<or> c = CHR ''t'' \<or> c = CHR ''f'' \<or> c = CHR 0x22 \<or>
                     c = CHR ''['' \<or> c = CHR ''{'')"

definition member_text :: "string \<times> json \<Rightarrow> string" where
  "member_text kv = quote (fst kv) @ CHR '':'' # JSON_stringify (snd kv)"

section \<open>Facts about the examples\<close>

lemma nullish_PlatformData [simp]: "\<not> nullish (Some (PlatformData_json pd))"
  by (simp add: PlatformData_json_def)

lemma getprop_PlatformData [simp]:
  "getprop (Some (PlatformData_json pd)) ''enabled'' = Some (JBool (enabled pd))"
  "getprop (Some (PlatformData_json pd)) ''minimum'' = Some (JString (minimum pd))"
  "getprop (Some (PlatformData_json pd)) ''latest'' = Some (JString (latest pd))"
  "getprop (Some (PlatformData_json pd)) ''url'' = Some (JString (url pd))"
  by (simp_all add: PlatformData_json_def)

lemma plain_examples:
  "plain_lt ''1.0.0'' (Some (JString ''2.0.0'')) = Inr True"
  "plain_lt ''1.9.9'' (Some (JString ''2.0.0'')) = Inr True"
  "plain_lt ''2.0.0'' (Some (JString ''2.0.0'')) = Inr False"
  "plain_lt ''2.0.0'' (Some (JString ''3.0.0'')) = Inr True"
  "plain_lt ''2.5.0'' (Some (JString ''2.0.0'')) = Inr False"
  "plain_lt ''2.5.0'' (Some (JString ''3.0.0'')) = Inr True"
  "plain_lt ''3.0.0'' (Some (JString ''2.0.0'')) = Inr False"
  "plain_lt ''3.0.0'' (Some (JString ''3.0.0'')) = Inr False"
  by (simp_all add: plain_lt_def version_of_def numeric_id_def digit_def)

lemma device_simps [simp]:
  "http_get (device p v r cs) = r"
  "platform_ready (device p v r cs) = Resolved ()"
  "platform_is (device p v r cs) q = (q = p)"
  "getVersionNumber (device p v r cs) = Resolved v"
  "getAppName (device p v r cs) = Resolved ''App''"
  "semver_lt (device p v r cs) = plain_lt"
  "translate (device p v r cs) = None"
  "clicks (device p v r cs) = cs"
  by (simp_all add: device_def)

lemma policy_simps [simp]:
  "minimum policy = ''2.0.0''" "latest policy = ''3.0.0''"
  "url policy = ''https://example.com/app''" "enabled policy"
  by (simp_all add: policy_def)

lemma document_simps [simp]:
  "truthy (Some document)"
  "getprop (Some document) ''ios'' = Some (PlatformData_json policy)"
  "getprop (Some document) ''android'' = None"
  "getprop (Some document) ''windows'' = None"
  "getprop (Some document) ''url'' = None"
  "\<not> nullish (Some document)"
  by (simp_all add: document_def ManUpData_json_def entry_def)

lemma new_service_simps [simp]:
  "inProgress (new_service st) = False" "currentPromise (new_service st) = None"
  "storage (new_service st) = st" "promises (new_service st) = []"
  "ready_calls (new_service st) = 0" "presented (new_service st) = []"
  "launched (new_service st) = []"
  by (simp_all add: new_service_def)

section \<open>The decision\<close>

text \<open>
  C1. \<^verbatim>\<open>evaluate\<close> decides in four steps. For every platform policy \<open>pd\<close>: when
  \<open>enabled\<close> is false the answer is \<open>MAINTENANCE\<close>, whatever the version, the version
  provider and the comparison do (they are not asked); otherwise, with the running
  version \<open>v\<close>, it is \<open>MANDATORY\<close> when \<open>v\<close> is below \<open>minimum\<close>; otherwise
  \<open>OPTIONAL\<close> when \<open>v\<close> is below \<open>latest\<close>; otherwise \<open>NOP\<close>. The comparison is strict:
  a version that is not below itself is never \<open>MANDATORY\<close> when it equals \<open>minimum\<close>, and
  never \<open>OPTIONAL\<close> when it equals \<open>latest\<close>.
\<close>

theorem evaluate_four_steps:
  "(\<not> enabled pd \<longrightarrow> evaluate e (Some (PlatformData_json pd)) = Resolved MAINTENANCE) \<and>
   (enabled pd \<and> getVersionNumber e = Resolved v \<and>
    semver_lt e v (Some (JString (minimum pd))) = Inr True \<longrightarrow>
      evaluate e (Some (PlatformData_json pd)) = Resolved MANDATORY) \<and>
   (enabled pd \<and> getVersionNumber e = Resolved v \<and>
    semver_lt e v (Some (JString (minimum pd))) = Inr False \<and>
    semver_lt e v (Some (JString (latest pd))) = Inr True \<longrightarrow>
      evaluate e (Some (PlatformData_json pd)) = Resolved OPTIONAL) \<and>
   (enabled pd \<and> getVersionNumber e = Resolved v \<and>
    semver_lt e v (Some (JString (minimum pd))) = Inr False \<and>
    semver_lt e v (Some (JString (latest pd))) = Inr False \<longrightarrow>
      evaluate e (Some (PlatformData_json pd)) = Resolved NOP) \<and>
   (enabled pd \<and> getVersionNumber e = Resolved v \<and>
    semver_lt e v (Some (JString v)) = Inr False \<longrightarrow>
      (minimum pd = v \<longrightarrow> evaluate e (Some (PlatformData_json pd)) \<noteq> Resolved MANDATORY) \<and>
      (latest pd = v \<longrightarrow> evaluate e (Some (PlatformData_json pd)) \<noteq> Resolved OPTIONAL))"
  by (auto simp: evaluate_def split: sum.splits bool.splits)

text \<open>
  The policy (minimum 2.0.0, latest 3.0.0): disabled on a device whose version provider
  never answers and whose comparison throws; then enabled, at 1.9.9, 2.5.0, 3.0.0, and at
  the two thresholds themselves.
\<close>

theorem evaluate_four_steps_witness:
  "evaluate ((device ''ios'' ''9.9.9'' Pending [])
              \<lparr>getVersionNumber := Pending, semver_lt := (\<lambda>v t. Inl TypeError)\<rparr>)
     (Some (PlatformData_json (policy\<lparr>enabled := False\<rparr>))) = Resolved MAINTENANCE \<and>
   evaluate (device ''ios'' ''1.9.9'' Pending []) (Some (PlatformData_json policy))
     = Resolved MANDATORY \<and>
   evaluate (device ''ios'' ''2.5.0'' Pending []) (Some (PlatformData_json policy))
     = Resolved OPTIONAL \<and>
   evaluate (device ''ios'' ''3.0.0'' Pending []) (Some (PlatformData_json policy))
     = Resolved NOP \<and>
   evaluate (device ''ios'' ''2.0.0'' Pending []) (Some (PlatformData_json policy))
     \<noteq> Resolved MANDATORY \<and>
   evaluate (device ''ios'' ''3.0.0'' Pending []) (Some (PlatformData_json policy))
     \<noteq> Resolved OPTIONAL"
  using
    evaluate_four_steps [of "policy\<lparr>enabled := False\<rparr>"
      "(device ''ios'' ''9.9.9'' Pending [])
         \<lparr>getVersionNumber := Pending, semver_lt := (\<lambda>v t. Inl TypeError)\<rparr>" "''9.9.9''"]
    evaluate_four_steps [of policy "device ''ios'' ''1.9.9'' Pending []" "''1.9.9''"]
    evaluate_four_steps [of policy "device ''ios'' ''2.5.0'' Pending []" "''2.5.0''"]
    evaluate_four_steps [of policy "device ''ios'' ''3.0.0'' Pending []" "''3.0.0''"]
    evaluate_four_steps [of policy "device ''ios'' ''2.0.0'' Pending []" "''2.0.0''"]
  by (simp add: plain_examples)

section \<open>What a check leaves alone\<close>

lemma validate_in_progress: "inProgress s \<Longrightarrow> validate e s = (currentPromise s, s)"
  by (simp add: validate_def)

lemma present_frame:
  "promises (snd (present e c s)) = promises s \<and>
   inProgress (snd (present e c s)) = inProgress s \<and>
   currentPromise (snd (present e c s)) = currentPromise s \<and>
   ready_calls (snd (present e c s)) = ready_calls s \<and>
   storage (snd (present e c s)) = storage s"
  by (simp add: present_def split: promise.splits)

lemma presentAlert_frame:
  "promises (snd (presentAlert e t d s)) = promises s \<and>
   inProgress (snd (presentAlert e t d s)) = inProgress s \<and>
   currentPromise (snd (presentAlert e t d s)) = currentPromise s \<and>
   ready_calls (snd (presentAlert e t d s)) = ready_calls s \<and>
   storage (snd (presentAlert e t d s)) = storage s"
  by (simp add: presentAlert_def presentMandatoryUpdate_def presentOptionalUpdate_def
      presentMaintenanceMode_def present_frame split: AlertType.splits)

lemma metadata_frame:
  "promises (snd (metadata e s)) = promises s \<and>
   inProgress (snd (metadata e s)) = inProgress s \<and>
   currentPromise (snd (metadata e s)) = currentPromise s \<and>
   ready_calls (snd (metadata e s)) = ready_calls s \<and>
   presented (snd (metadata e s)) = presented s \<and>
   launched (snd (metadata e s)) = launched s"
  by (auto simp: metadata_def saveMetadata_def split: promise.splits option.splits sum.splits)

lemma metadata_fst_frame [simp]:
  "fst (metadata e (s\<lparr>inProgress := a, ready_calls := b\<rparr>)) = fst (metadata e s)"
  by (auto simp: metadata_def metadataFromStorage_def saveMetadata_def
      split: promise.splits option.splits sum.splits)

lemma check_frame:
  "promises (snd (check e s)) = promises s \<and>
   inProgress (snd (check e s)) = inProgress s \<and>
   currentPromise (snd (check e s)) = currentPromise s \<and>
   ready_calls (snd (check e s)) = ready_calls s"
  by (simp add: check_def metadata_frame presentAlert_frame
      split: promise.splits sum.splits AlertType.splits)

lemma outcome_first:
  "\<not> inProgress s \<Longrightarrow>
   outcome (validate e s) =
     fst (check e (s\<lparr>inProgress := True, ready_calls := ready_calls s + 1\<rparr>))"
  by (simp add: validate_def Let_def outcome_def)

lemma validate_first:
  "\<not> inProgress s \<Longrightarrow>
   fst (validate e s) = Some (length (promises s)) \<and>
   inProgress (snd (validate e s)) \<and>
   currentPromise (snd (validate e s)) = Some (length (promises s)) \<and>
   ready_calls (snd (validate e s)) = ready_calls s + 1 \<and>
   promises (snd (validate e s)) =
     promises s @ [fst (check e (s\<lparr>inProgress := True, ready_calls := ready_calls s + 1\<rparr>))]"
  by (simp add: validate_def Let_def check_frame)

lemma validate_all_in_progress:
  "inProgress s \<Longrightarrow> validate_all es s = (replicate (length es) (currentPromise s), s)"
  by (induction es) (simp_all add: validate_in_progress)

text \<open>
  The promise of a check never rejects, and it resolves in two places only: on a document
  that is falsy, and on \<open>NOP\<close>.
\<close>

lemma check_resolves_iff:
  "fst (check e s) = Resolved () \<longleftrightarrow>
     (\<exists>u md. platform_ready e = Resolved u \<and> fst (metadata e s) = Resolved md \<and>
        (\<not> truthy (Some md) \<or>
         (\<exists>pd. getPlatformData e (Some md) = Inr pd \<and> evaluate e pd = Resolved NOP)))"
  by (auto simp: check_def split: promise.splits sum.splits AlertType.splits)

lemma check_never_rejects: "fst (check e s) \<noteq> Rejected err"
  by (auto simp: check_def split: promise.splits sum.splits AlertType.splits)

lemma check_pending_on_error:
  "platform_ready e = Rejected err \<or> fst (metadata e s) = Rejected err \<or>
   (\<exists>md. platform_ready e = Resolved () \<and> fst (metadata e s) = Resolved md \<and> truthy (Some md) \<and>
      (getPlatformData e (Some md) = Inl err \<or>
       (\<exists>pd. getPlatformData e (Some md) = Inr pd \<and> evaluate e pd = Rejected err))) \<Longrightarrow>
   fst (check e s) = Pending"
  by (auto simp: check_def split: promise.splits sum.splits AlertType.splits)

lemma check_pending_on_alert:
  "platform_ready e = Resolved () \<Longrightarrow> fst (metadata e s) = Resolved md \<Longrightarrow>
   getPlatformData e (Some md) = Inr pd \<Longrightarrow> evaluate e pd = Resolved t \<Longrightarrow> t \<noteq> NOP \<Longrightarrow>
   fst (check e s) = Pending"
  by (auto simp: check_def getPlatformData_def split: AlertType.splits if_splits)

lemma evaluate_examples:
  "evaluate (device p ''1.0.0'' r cs) (Some (PlatformData_json policy)) = Resolved MANDATORY"
  "evaluate (device p ''2.5.0'' r cs) (Some (PlatformData_json policy)) = Resolved OPTIONAL"
  "evaluate (device p ''3.0.0'' r cs) (Some (PlatformData_json policy)) = Resolved NOP"
  "evaluate (device p v r cs) (Some (PlatformData_json (policy\<lparr>enabled := False\<rparr>)))
     = Resolved MAINTENANCE"
  by (simp_all add: evaluate_def plain_examples)

lemma metadata_no_storage:
  "metadata e (new_service None) =
     (case http_get e of Pending \<Rightarrow> Pending | Resolved d \<Rightarrow> Resolved d
      | Rejected err \<Rightarrow> Rejected (Error ''Storage not configured''), new_service None)"
  by (simp add: metadata_def metadataFromStorage_def returned_def split: promise.splits)

section \<open>Failures during the check\<close>

text \<open>
  C2. When the fetch fails and the service has no storage, \<^verbatim>\<open>metadata()\<close> rejects with
  ``Storage not configured''; the rejection ends the callback of \<^verbatim>\<open>platform.ready()\<close>,
  nothing calls \<^verbatim>\<open>resolve\<close>, and the promise of \<^verbatim>\<open>validate()\<close> stays pending: it does not
  resolve. (\<open>check_pending_on_error\<close> above: so does every error of the first four steps.)
\<close>

theorem validate_fetch_failure_without_storage:
  "metadata (device ''ios'' ''2.5.0'' (Rejected (Failure ''offline'')) []) (new_service None)
     = (Rejected (Error ''Storage not configured''), new_service None) \<and>
   outcome (validate (device ''ios'' ''2.5.0'' (Rejected (Failure ''offline'')) [])
              (new_service None)) = Pending"
  by (simp add: outcome_first check_def metadata_no_storage)

section \<open>Single flight\<close>

text \<open>
  C3. Of any number of calls of \<^verbatim>\<open>validate()\<close> on a new service, in whatever world each
  is made, the first alone runs the check: every call returns the same promise (handle 0),
  the later calls leave the service as the first left it, the flag stays set,
  \<^verbatim>\<open>platform.ready()\<close> was called once, one promise exists, and every caller sees the
  outcome of the first call.
\<close>

theorem validate_single_flight:
  "fst (validate_all (e # es) (new_service st)) = replicate (Suc (length es)) (Some 0) \<and>
   snd (validate_all (e # es) (new_service st)) = snd (validate e (new_service st)) \<and>
   inProgress (snd (validate_all (e # es) (new_service st))) \<and>
   currentPromise (snd (validate_all (e # es) (new_service st))) = Some 0 \<and>
   ready_calls (snd (validate_all (e # es) (new_service st))) = 1 \<and>
   promises (snd (validate_all (e # es) (new_service st))) =
     [fst (check e ((new_service st)\<lparr>inProgress := True, ready_calls := 1\<rparr>))] \<and>
   map (\<lambda>h. outcome (h, snd (validate_all (e # es) (new_service st))))
       (fst (validate_all (e # es) (new_service st))) =
     replicate (Suc (length es)) (outcome (validate e (new_service st)))"
proof -
  let ?s = "new_service st"
  have first: "fst (validate e ?s) = Some 0" "inProgress (snd (validate e ?s))"
    "currentPromise (snd (validate e ?s)) = Some 0" "ready_calls (snd (validate e ?s)) = 1"
    "promises (snd (validate e ?s)) =
       [fst (check e (?s\<lparr>inProgress := True, ready_calls := 1\<rparr>))]"
    using validate_first [of ?s e] by simp_all
  have rest: "validate_all es (snd (validate e ?s)) =
      (replicate (length es) (Some 0), snd (validate e ?s))"
    using validate_all_in_progress [OF first(2), of es] by (simp add: first(3))
  have all: "validate_all (e # es) ?s =
      (replicate (Suc (length es)) (Some 0), snd (validate e ?s))"
    by (simp add: rest first(1))
  have out: "outcome (Some 0, snd (validate e ?s)) = outcome (validate e ?s)"
    by (simp add: outcome_def first(1))
  show ?thesis
    by (simp add: all first out map_replicate_const del: validate_all.simps)
qed

section \<open>Platform selection\<close>

text \<open>
  A document with an entry for iOS only, on an Android device: \<^verbatim>\<open>getPlatformData\<close>
  returns \<^verbatim>\<open>metadata.android\<close>, which is \<^verbatim>\<open>undefined\<close>; it does not throw.
\<close>

theorem getPlatformData_absent_entry_counterexample:
  "getPlatformData (device ''android'' ''2.5.0'' Pending []) (Some document) = Inr None \<and>
   getPlatformData (device ''android'' ''2.5.0'' Pending []) (Some document)
     \<noteq> Inl (Error ''Unknown platform'') \<and>
   getprop (Some document) ''ios'' = Some (PlatformData_json policy)"
  by (simp add: getPlatformData_def)

text \<open>
  C4, amended. \<^verbatim>\<open>getPlatformData\<close> throws ``metadata does not exist'' when the document
  is absent (falsy), and ``Unknown platform'' when the platform is none of \<^verbatim>\<open>ios\<close>,
  \<^verbatim>\<open>android\<close>, \<^verbatim>\<open>windows\<close>. On a platform it knows (asked in this order) it returns the
  document's entry of that name as it is: \<^verbatim>\<open>undefined\<close> when the document has none.
\<close>

theorem getPlatformData_cases:
  "(\<not> truthy md \<longrightarrow> getPlatformData e md = Inl (Error ''metadata does not exist'')) \<and>
   (truthy md \<and> \<not> platform_is e ''ios'' \<and> \<not> platform_is e ''android'' \<and>
    \<not> platform_is e ''windows'' \<longrightarrow> getPlatformData e md = Inl (Error ''Unknown platform'')) \<and>
   (truthy md \<and> platform_is e ''ios'' \<longrightarrow> getPlatformData e md = Inr (getprop md ''ios'')) \<and>
   (truthy md \<and> \<not> platform_is e ''ios'' \<and> platform_is e ''android'' \<longrightarrow>
      getPlatformData e md = Inr (getprop md ''android'')) \<and>
   (truthy md \<and> \<not> platform_is e ''ios'' \<and> \<not> platform_is e ''android'' \<and>
    platform_is e ''windows'' \<longrightarrow> getPlatformData e md = Inr (getprop md ''windows''))"
  by (simp add: getPlatformData_def)

theorem getPlatformData_cases_witness:
  "getPlatformData (device ''ios'' ''2.5.0'' Pending []) (Some JNull)
     = Inl (Error ''metadata does not exist'') \<and>
   getPlatformData (device ''ios'' ''2.5.0'' Pending []) None
     = Inl (Error ''metadata does not exist'') \<and>
   getPlatformData (device ''symbian'' ''2.5.0'' Pending []) (Some document)
     = Inl (Error ''Unknown platform'') \<and>
   getPlatformData (device ''ios'' ''2.5.0'' Pending []) (Some document)
     = Inr (Some (PlatformData_json policy)) \<and>
   getPlatformData (device ''android'' ''2.5.0'' Pending []) (Some document) = Inr None \<and>
   getPlatformData (device ''windows'' ''2.5.0'' Pending []) (Some document) = Inr None"
  using
    getPlatformData_cases [of "Some JNull" "device ''ios'' ''2.5.0'' Pending []"]
    getPlatformData_cases [of None "device ''ios'' ''2.5.0'' Pending []"]
    getPlatformData_cases [of "Some document" "device ''symbian'' ''2.5.0'' Pending []"]
    getPlatformData_cases [of "Some document" "device ''ios'' ''2.5.0'' Pending []"]
    getPlatformData_cases [of "Some document" "device ''android'' ''2.5.0'' Pending []"]
    getPlatformData_cases [of "Some document" "device ''windows'' ''2.5.0'' Pending []"]
  by simp

section \<open>The alerts\<close>

text \<open>
  C6. The policy asks for 2.0.0 at least and offers 3.0.0; the device runs 2.5.0, so the
  decision is \<open>OPTIONAL\<close>, and the user presses ``Not Now''. The promise of
  \<^verbatim>\<open>presentOptionalUpdate\<close> resolves, but the callback only returns it: \<^verbatim>\<open>resolve\<close> of
  \<^verbatim>\<open>currentPromise\<close> is not called, and the promise of \<^verbatim>\<open>validate()\<close> stays pending.
\<close>

theorem validate_optional_not_now:
  "getPlatformData (device ''ios'' ''2.5.0'' (Resolved document) [0]) (Some document)
     = Inr (Some (PlatformData_json policy)) \<and>
   evaluate (device ''ios'' ''2.5.0'' (Resolved document) [0]) (Some (PlatformData_json policy))
     = Resolved OPTIONAL \<and>
   fst (presentOptionalUpdate (device ''ios'' ''2.5.0'' (Resolved document) [0])
          (Some (PlatformData_json policy)) (new_service None)) = Resolved () \<and>
   outcome (validate (device ''ios'' ''2.5.0'' (Resolved document) [0]) (new_service None))
     = Pending"
  by (simp add: outcome_first check_def metadata_def getPlatformData_def evaluate_examples
      presentOptionalUpdate_def present_def optional_alert_def later_button_def)

text \<open>
  C7. The device runs 1.0.0, the decision is \<open>MANDATORY\<close>, and the user presses
  ``Update''. \<^verbatim>\<open>validate\<close> hands \<^verbatim>\<open>presentAlert\<close> the whole document, not the entry of
  the platform: the button's handler holds the document, whose \<^verbatim>\<open>url\<close> is \<^verbatim>\<open>undefined\<close>,
  and \<^verbatim>\<open>iab.create\<close> is called with \<^verbatim>\<open>undefined\<close>, not with the policy's
  \<^verbatim>\<open>https://example.com/app\<close>.
\<close>

theorem validate_update_opens_url_of_document:
  "getPlatformData (device ''ios'' ''1.0.0'' (Resolved document) [0]) (Some document)
     = Inr (Some (PlatformData_json policy)) \<and>
   evaluate (device ''ios'' ''1.0.0'' (Resolved document) [0]) (Some (PlatformData_json policy))
     = Resolved MANDATORY \<and>
   getprop (Some (PlatformData_json policy)) ''url'' = Some (JString ''https://example.com/app'') \<and>
   launched (snd (validate (device ''ios'' ''1.0.0'' (Resolved document) [0]) (new_service None)))
     = [(None, ''_system'')] \<and>
   map handler (concat (map buttons (presented
     (snd (validate (device ''ios'' ''1.0.0'' (Resolved document) [0]) (new_service None))))))
     = [Launch (Some document)]"
  by (simp add: validate_def Let_def check_def metadata_def getPlatformData_def evaluate_examples
      presentAlert_def presentMandatoryUpdate_def present_def mandatory_alert_def
      update_button_def)

lemma interact_update_only: "fst (interact [update_button e d] cs) = False"
  by (induction cs) (simp_all add: update_button_def)

lemma interact_no_buttons: "interact [] cs = (False, [])"
  by (induction cs) simp_all

lemma presentMandatoryUpdate_unresolved: "fst (presentMandatoryUpdate e d s) \<noteq> Resolved ()"
  by (simp add: presentMandatoryUpdate_def present_def mandatory_alert_def interact_update_only
      split: promise.splits)

lemma presentMaintenanceMode_unresolved: "fst (presentMaintenanceMode e s) \<noteq> Resolved ()"
  by (simp add: presentMaintenanceMode_def present_def maintenance_alert_def interact_no_buttons
      split: promise.splits)

text \<open>
  C8. When the first call of \<^verbatim>\<open>validate()\<close> decides \<open>MANDATORY\<close> or \<open>MAINTENANCE\<close>, its
  promise never settles. The two presentations never resolve either, whatever the user
  presses: their alerts cannot be dismissed by the backdrop, the maintenance alert has no
  button, and the only button of the mandatory alert, ``Update'', keeps the alert open.
\<close>

theorem validate_blocks_forever:
  assumes "\<not> inProgress s"
    and "platform_ready e = Resolved ()"
    and "fst (metadata e s) = Resolved md"
    and "getPlatformData e (Some md) = Inr pd"
    and "evaluate e pd = Resolved MANDATORY \<or> evaluate e pd = Resolved MAINTENANCE"
  shows "outcome (validate e s) = Pending \<and>
         fst (presentMandatoryUpdate e d s') \<noteq> Resolved () \<and>
         fst (presentMaintenanceMode e s') \<noteq> Resolved () \<and>
         \<not> enableBackdropDismiss (mandatory_alert e d name) \<and>
         \<not> enableBackdropDismiss (maintenance_alert e name) \<and>
         buttons (maintenance_alert e name) = [] \<and>
         fst (interact (buttons (mandatory_alert e d name)) cs) = False"
proof -
  let ?s = "s\<lparr>inProgress := True, ready_calls := ready_calls s + 1\<rparr>"
  have "fst (check e ?s) = Pending"
    using assms(2-5) check_pending_on_alert [of e ?s md pd] by auto
  then have "outcome (validate e s) = Pending"
    using outcome_first [OF assms(1), of e] by simp
  then show ?thesis
    by (simp add: presentMandatoryUpdate_unresolved presentMaintenanceMode_unresolved
        mandatory_alert_def maintenance_alert_def interact_update_only)
qed

text \<open>
  On a new service without storage: the policy on a device that runs 1.0.0, whose user
  presses ``Update'' twice; and the same policy, disabled.
\<close>

theorem validate_blocks_forever_witness:
  "outcome (validate (device ''ios'' ''1.0.0'' (Resolved document) [0, 0]) (new_service None))
     = Pending \<and>
   outcome (validate (device ''ios'' ''2.5.0''
       (Resolved (ManUpData_json \<lparr>ios = Some (policy\<lparr>enabled := False\<rparr>), android = None,
                                 windows = None\<rparr>)) []) (new_service None)) = Pending"
proof -
  let ?e = "device ''ios'' ''1.0.0'' (Resolved document) [0, 0]"
  let ?d = "ManUpData_json \<lparr>ios = Some (policy\<lparr>enabled := False\<rparr>), android = None,
                             windows = None\<rparr>"
  let ?f = "device ''ios'' ''2.5.0'' (Resolved ?d) []"
  have a: "\<not> inProgress (new_service None)" by simp
  have b: "platform_ready ?e = Resolved ()" "platform_ready ?f = Resolved ()" by simp_all
  have c: "fst (metadata ?e (new_service None)) = Resolved document"
    "fst (metadata ?f (new_service None)) = Resolved ?d"
    by (simp_all add: metadata_no_storage)
  have d: "getPlatformData ?e (Some document) = Inr (Some (PlatformData_json policy))"
    "getPlatformData ?f (Some ?d) = Inr (Some (PlatformData_json (policy\<lparr>enabled := False\<rparr>)))"
    by (simp_all add: getPlatformData_def ManUpData_json_def entry_def)
  have e: "evaluate ?e (Some (PlatformData_json policy)) = Resolved MANDATORY \<or>
           evaluate ?e (Some (PlatformData_json policy)) = Resolved MAINTENANCE"
    "evaluate ?f (Some (PlatformData_json (policy\<lparr>enabled := False\<rparr>))) = Resolved MANDATORY \<or>
     evaluate ?f (Some (PlatformData_json (policy\<lparr>enabled := False\<rparr>))) = Resolved MAINTENANCE"
    by (simp_all add: evaluate_examples)
  show ?thesis
    using validate_blocks_forever [OF a b(1) c(1) d(1) e(1)]
      validate_blocks_forever [OF a b(2) c(2) d(2) e(2)]
    by simp
qed

section \<open>Writing and reading JSON\<close>

text \<open>
  What \<^verbatim>\<open>JSON.stringify\<close> writes, \<^verbatim>\<open>JSON.parse\<close> reads back: first strings, then
  the elements of an array and the properties of an object, then every value.
\<close>

lemma hex_value_hex_digit: "d < 16 \<Longrightarrow> hex_value (hex_digit d) = Some d"
  by (simp add: hex_value_def hex_digit_def Let_def)

lemma hex_value_zero: "hex_value (CHR ''0'') = Some 0"
  by (simp add: hex_value_def)

lemma hex4_control:
  "n < 32 \<Longrightarrow> hex4 (CHR ''0'') (CHR ''0'') (hex_digit (n div 16)) (hex_digit (n mod 16)) = Some n"
  by (simp add: hex4_def hex_value_zero hex_value_hex_digit)

lemma parse_chars_escape: "parse_chars (escape_char c @ t) = with_first c (parse_chars t)"
proof -
  consider (short) "c \<in> {CHR 0x08, CHR 0x09, CHR 0x0A, CHR 0x0C, CHR 0x0D, CHR 0x22, CHR 0x5C}"
    | (control) "c \<notin> {CHR 0x08, CHR 0x09, CHR 0x0A, CHR 0x0C, CHR 0x0D, CHR 0x22, CHR 0x5C}"
        "of_char c < (0x20 :: nat)"
    | (plain) "c \<notin> {CHR 0x08, CHR 0x09, CHR 0x0A, CHR 0x0C, CHR 0x0D, CHR 0x22, CHR 0x5C}"
        "\<not> of_char c < (0x20 :: nat)"
    by blast
  then show ?thesis
  proof cases
    case short
    then show ?thesis
      by (auto simp: escape_char_def unescape_def)
  next
    case control
    then show ?thesis
      by (simp add: escape_char_def hex4_control)
  next
    case plain
    then show ?thesis
      by (simp add: escape_char_def)
  qed
qed

lemma parse_chars_quoted:
  "parse_chars (concat (map escape_char s) @ CHR 0x22 # rest) = Some (s, rest)"
  by (induction s) (simp_all add: parse_chars_escape with_first_def)

lemma skip_ws_keep: "\<not> is_ws c \<Longrightarrow> skip_ws (c # s) = c # s"
  by (simp add: skip_ws_def)

lemma is_ws_simps [simp]:
  "\<not> is_ws (CHR ''n'')" "\<not> is_ws (CHR ''t'')" "\<not> is_ws (CHR ''f'')" "\<not> is_ws (CHR 0x22)"
  "\<not> is_ws (CHR ''['')" "\<not> is_ws (CHR ''{'')" "\<not> is_ws (CHR '']'')" "\<not> is_ws (CHR ''}'')"
  "\<not> is_ws (CHR '','')" "\<not> is_ws (CHR '':'')"
  by (simp_all add: is_ws_def)

lemma stringify_starts: "\<exists>c t. JSON_stringify j = c # t \<and> starts_value c"
  by (cases j) (simp_all add: starts_value_def quote_def)

lemma starts_value_facts:
  "starts_value c \<Longrightarrow> \<not> is_ws c \<and> c \<noteq> CHR '']'' \<and> c \<noteq> CHR ''}''"
  by (auto simp: starts_value_def)

lemma commas_starts:
  "xs \<noteq> [] \<Longrightarrow> \<exists>c t. commas (map JSON_stringify xs) = c # t \<and> starts_value c"
proof (cases xs)
  case Nil
  then show "xs \<noteq> [] \<Longrightarrow> ?thesis" by simp
next
  case (Cons x ys)
  obtain c t where ct: "JSON_stringify x = c # t" "starts_value c"
    using stringify_starts by blast
  show ?thesis
    using Cons ct by (cases ys) auto
qed

lemma parse_elements_commas:
  assumes "\<And>x n rest. x \<in> set xs \<Longrightarrow> length (JSON_stringify x) \<le> n \<Longrightarrow>
             parse_value n (JSON_stringify x @ rest) = Some (x, rest)"
    and "xs \<noteq> []"
    and "length (commas (map JSON_stringify xs)) < n"
  shows "parse_elements n (commas (map JSON_stringify xs) @ CHR '']'' # rest) = Some (xs, rest)"
  using assms
proof (induction xs arbitrary: n)
  case Nil
  then show ?case by simp
next
  case (Cons x ys)
  obtain m where n: "n = Suc m"
    using Cons.prems(3) by (cases n) auto
  show ?case
  proof (cases ys)
    case Nil
    have "parse_value m (JSON_stringify x @ CHR '']'' # rest) = Some (x, CHR '']'' # rest)"
      using Cons.prems(1) [of x m] Cons.prems(3) n Nil by simp
    then show ?thesis
      using n Nil by (simp add: skip_ws_keep)
  next
    case (Cons y zs)
    let ?tail = "commas (map JSON_stringify ys) @ CHR '']'' # rest"
    have len: "length (JSON_stringify x) \<le> m" "length (commas (map JSON_stringify ys)) < m"
      using Cons.prems(3) n Cons by simp_all
    have "parse_value m (JSON_stringify x @ CHR '','' # ?tail) = Some (x, CHR '','' # ?tail)"
      using Cons.prems(1) [of x m] len(1) by simp
    moreover have "parse_elements m ?tail = Some (ys, rest)"
      using Cons.IH [of m] Cons.prems(1) len(2) Cons by simp
    ultimately show ?thesis
      using n Cons by (simp add: skip_ws_keep with_first_def)
  qed
qed

lemma member_text_pair [simp]: "member_text (k, v) = quote k @ CHR '':'' # JSON_stringify v"
  by (simp add: member_text_def)

lemma member_text_eq: "(\<lambda>(k, v). quote k @ CHR '':'' # JSON_stringify v) = member_text"
  by (auto simp: member_text_def fun_eq_iff)

lemma parse_members_commas:
  assumes "\<And>kv n rest. kv \<in> set kvs \<Longrightarrow> length (JSON_stringify (snd kv)) \<le> n \<Longrightarrow>
             parse_value n (JSON_stringify (snd kv) @ rest) = Some (snd kv, rest)"
    and "kvs \<noteq> []"
    and "length (commas (map member_text kvs)) < n"
  shows "parse_members n (commas (map member_text kvs) @ CHR ''}'' # rest) = Some (kvs, rest)"
  using assms
proof (induction kvs arbitrary: n)
  case Nil
  then show ?case by simp
next
  case (Cons kv ys)
  obtain m where n: "n = Suc m"
    using Cons.prems(3) by (cases n) auto
  obtain k v where kv: "kv = (k, v)"
    by (cases kv)
  have key: "\<And>t. parse_chars (concat (map escape_char k) @ CHR 0x22 # t) = Some (k, t)"
    by (rule parse_chars_quoted)
  show ?case
  proof (cases ys)
    case Nil
    have "length (JSON_stringify v) \<le> m"
      using Cons.prems(3) n Nil kv by simp
    then have "parse_value m (JSON_stringify v @ CHR ''}'' # rest) = Some (v, CHR ''}'' # rest)"
      using Cons.prems(1) [of kv m] kv by simp
    then show ?thesis
      using n Nil kv by (simp add: quote_def skip_ws_keep key)
  next
    case (Cons y zs)
    let ?tail = "commas (map member_text ys) @ CHR ''}'' # rest"
    have len: "length (JSON_stringify v) \<le> m" "length (commas (map member_text ys)) < m"
      using Cons.prems(3) n Cons kv by simp_all
    have "parse_value m (JSON_stringify v @ CHR '','' # ?tail) = Some (v, CHR '','' # ?tail)"
      using Cons.prems(1) [of kv m] len(1) kv by simp
    moreover have "parse_members m ?tail = Some (ys, rest)"
      using Cons.IH [of m] Cons.prems(1) len(2) Cons by simp
    ultimately show ?thesis
      using n Cons kv by (simp add: quote_def skip_ws_keep key with_first_def)
  qed
qed

lemma put_fresh: "k \<notin> fst ` set ps \<Longrightarrow> put k v ps = ps @ [(k, v)]"
  by (induction ps) auto

lemma foldl_put_distinct:
  "distinct (map fst (ps @ kvs)) \<Longrightarrow> foldl (\<lambda>ps (k, v). put k v ps) ps kvs = ps @ kvs"
proof (induction kvs arbitrary: ps)
  case Nil
  then show ?case by simp
next
  case (Cons kv kvs)
  obtain k v where kv: "kv = (k, v)" by (cases kv)
  have "k \<notin> fst ` set ps"
    using Cons.prems kv by auto
  then have "put k v ps = ps @ [(k, v)]"
    by (rule put_fresh)
  then show ?case
    using Cons.IH [of "ps @ [(k, v)]"] Cons.prems kv by simp
qed

lemma object_of_distinct: "distinct (map fst kvs) \<Longrightarrow> object_of kvs = JObject kvs"
  using foldl_put_distinct [of "[]" kvs] by (simp add: object_of_def)

lemma commas_members_starts:
  "kvs \<noteq> [] \<Longrightarrow> \<exists>t. commas (map member_text kvs) = CHR 0x22 # t"
proof (cases kvs)
  case Nil
  then show "kvs \<noteq> [] \<Longrightarrow> ?thesis" by simp
next
  case (Cons kv ys)
  then show ?thesis
    by (cases kv; cases ys) (auto simp: quote_def)
qed

lemma parse_value_stringify:
  "distinct_keys j \<Longrightarrow> length (JSON_stringify j) \<le> n \<Longrightarrow>
   parse_value n (JSON_stringify j @ rest) = Some (j, rest)"
proof (induction j arbitrary: n rest)
  case JNull
  then obtain m where "n = Suc m" by (cases n) auto
  then show ?case by (simp add: skip_ws_keep)
next
  case (JBool b)
  then obtain m where "n = Suc m" by (cases n) (auto split: if_splits)
  then show ?case by (simp add: skip_ws_keep)
next
  case (JString s)
  then obtain m where "n = Suc m" by (cases n) (auto simp: quote_def)
  then show ?case
    by (simp add: skip_ws_keep quote_def parse_chars_quoted tagged_def)
next
  case (JArray xs)
  then obtain m where n: "n = Suc m" by (cases n) auto
  show ?case
  proof (cases "xs = []")
    case True
    then show ?thesis using n by (simp add: skip_ws_keep)
  next
    case False
    obtain c t where ct: "commas (map JSON_stringify xs) = c # t" "starts_value c"
      using commas_starts [OF False] by blast
    have elems: "\<And>x n rest. x \<in> set xs \<Longrightarrow> length (JSON_stringify x) \<le> n \<Longrightarrow>
        parse_value n (JSON_stringify x @ rest) = Some (x, rest)"
      using JArray.IH JArray.prems(1) by (simp add: list_all_iff)
    have "length (commas (map JSON_stringify xs)) < m"
      using JArray.prems(2) n by simp
    then have "parse_elements m (commas (map JSON_stringify xs) @ CHR '']'' # rest)
        = Some (xs, rest)"
      using parse_elements_commas [OF elems False] by blast
    then have "parse_elements m (c # t @ CHR '']'' # rest) = Some (xs, rest)"
      using ct(1) by simp
    then show ?thesis
      using n ct starts_value_facts [OF ct(2)] by (simp add: skip_ws_keep tagged_def)
  qed
next
  case (JObject kvs)
  then obtain m where n: "n = Suc m" by (cases n) auto
  show ?case
  proof (cases "kvs = []")
    case True
    then show ?thesis using n by (simp add: skip_ws_keep)
  next
    case False
    obtain t where t: "commas (map member_text kvs) = CHR 0x22 # t"
      using commas_members_starts [OF False] by blast
    have mems: "\<And>kv n rest. kv \<in> set kvs \<Longrightarrow> length (JSON_stringify (snd kv)) \<le> n \<Longrightarrow>
        parse_value n (JSON_stringify (snd kv) @ rest) = Some (snd kv, rest)"
    proof -
      fix kv n rest
      assume a: "kv \<in> set kvs" "length (JSON_stringify (snd kv)) \<le> n"
      have "snd kv \<in> Basic_BNFs.snds kv"
        by (cases kv) simp
      moreover have "distinct_keys (snd kv)"
        using JObject.prems(1) a(1) by (simp add: list_all_iff)
      ultimately show "parse_value n (JSON_stringify (snd kv) @ rest) = Some (snd kv, rest)"
        using JObject.IH [of kv "snd kv" n rest] a by simp
    qed
    have "length (commas (map member_text kvs)) < m"
      using JObject.prems(2) n by (simp add: member_text_eq)
    then have "parse_members m (commas (map member_text kvs) @ CHR ''}'' # rest)
        = Some (kvs, rest)"
      using parse_members_commas [OF mems False] by blast
    then have "parse_members m (CHR 0x22 # t @ CHR ''}'' # rest) = Some (kvs, rest)"
      using t by simp
    moreover have "object_of kvs = JObject kvs"
      using JObject.prems(1) by (simp add: object_of_distinct)
    ultimately show ?thesis
      using n t by (simp add: skip_ws_keep tagged_def member_text_eq)
  qed
qed

lemma JSON_roundtrip: "distinct_keys j \<Longrightarrow> JSON_parse (JSON_stringify j) = Inr j"
  using parse_value_stringify [of j "length (JSON_stringify j)" "[]"]
  by (simp add: JSON_parse_def skip_ws_def)

subsection \<open>The bound on the recursion\<close>

text \<open>
  The bound that \<^verbatim>\<open>JSON_parse\<close> gives the recursion never cuts a reading short: more
  fuel changes no result, and a reading needs no more fuel than the characters it uses
  up. So with the length of the text, or anything above it, the result is the same.
\<close>

lemma skip_ws_length: "length (skip_ws s) \<le> length s"
  by (simp add: skip_ws_def length_dropWhile_le)

lemma strip_length: "strip p s = Some r \<Longrightarrow> length r + length p = length s"
  by (induction p s rule: strip.induct) (auto split: if_splits)

lemma parse_chars_length: "parse_chars s = Some (x, r) \<Longrightarrow> length r < length s"
proof (induction s arbitrary: x r rule: parse_chars.induct)
  case 1
  then show ?case by simp
next
  case (2 c cs)
  show ?case
    using "2.prems" "2.IH"
    by (auto simp: with_first_def split: if_splits list.splits option.splits) fastforce+
qed

lemma parse_more_fuel:
  "(parse_value n s = Some a \<longrightarrow> parse_value (Suc n) s = Some a) \<and>
   (parse_elements n s = Some b \<longrightarrow> parse_elements (Suc n) s = Some b) \<and>
   (parse_members n s = Some c \<longrightarrow> parse_members (Suc n) s = Some c)"
proof (induction n arbitrary: s a b c)
  case 0
  show ?case by simp
next
  case (Suc n)
  have v: "\<And>s a. parse_value n s = Some a \<Longrightarrow> parse_value (Suc n) s = Some a"
    and e: "\<And>s b. parse_elements n s = Some b \<Longrightarrow> parse_elements (Suc n) s = Some b"
    and m: "\<And>s c. parse_members n s = Some c \<Longrightarrow> parse_members (Suc n) s = Some c"
    using Suc.IH by blast+
  have 1: "parse_value (Suc n) s = Some a \<longrightarrow> parse_value (Suc (Suc n)) s = Some a"
    by (auto simp: parse_value.simps(2) [of "Suc n"] parse_value.simps(2) [of n] tagged_def
        simp del: parse_value.simps parse_elements.simps parse_members.simps
        split: list.splits if_splits option.splits dest: e m)
  have 2: "parse_elements (Suc n) s = Some b \<longrightarrow> parse_elements (Suc (Suc n)) s = Some b"
  proof
    assume A: "parse_elements (Suc n) s = Some b"
    then obtain x r where x: "parse_value n s = Some (x, r)"
      by (cases "parse_value n s") (auto simp del: parse_value.simps)
    then have x': "parse_value (Suc n) s = Some (x, r)"
      by (rule v)
    show "parse_elements (Suc (Suc n)) s = Some b"
    proof (cases "skip_ws r")
      case Nil
      then show ?thesis using A x by (simp del: parse_value.simps)
    next
      case (Cons d r')
      show ?thesis
      proof (cases "d = CHR '',''")
        case True
        then have B: "with_first x (parse_elements n r') = Some b"
          using A x Cons by (simp del: parse_value.simps)
        then obtain y where y: "parse_elements n r' = Some y"
          by (cases "parse_elements n r'") (simp_all add: with_first_def)
        have "parse_elements (Suc n) r' = Some y"
          by (rule e [OF y])
        then show ?thesis
          using B y x' Cons True
          by (simp add: parse_elements.simps(2) [of "Suc n"]
              del: parse_value.simps parse_elements.simps)
      next
        case False
        then show ?thesis
          using A x x' Cons
          by (simp add: parse_elements.simps(2) [of "Suc n"] parse_elements.simps(2) [of n]
              del: parse_value.simps parse_elements.simps)
      qed
    qed
  qed
  have 3: "parse_members (Suc n) s = Some c \<longrightarrow> parse_members (Suc (Suc n)) s = Some c"
  proof
    assume A: "parse_members (Suc n) s = Some c"
    show "parse_members (Suc (Suc n)) s = Some c"
    proof (cases "skip_ws s")
      case Nil
      then show ?thesis using A by simp
    next
      case s: (Cons q r)
      then have q: "q = CHR 0x22"
        using A by (simp split: if_splits)
      obtain k r1 where k: "parse_chars r = Some (k, r1)"
        using A s q by (cases "parse_chars r") auto
      obtain c1 r2 where r1: "skip_ws r1 = c1 # r2"
        using A s q k by (cases "skip_ws r1") auto
      have c1: "c1 = CHR '':''"
        using A s q k r1 by (simp split: if_splits)
      obtain x r3 where x: "parse_value n r2 = Some (x, r3)"
        using A s q k r1 c1 by (cases "parse_value n r2") (auto simp del: parse_value.simps)
      then have x': "parse_value (Suc n) r2 = Some (x, r3)"
        by (rule v)
      obtain c3 r4 where r3: "skip_ws r3 = c3 # r4"
        using A s q k r1 c1 x by (cases "skip_ws r3") (auto simp del: parse_value.simps)
      show ?thesis
      proof (cases "c3 = CHR '',''")
        case True
        then have B: "with_first (k, x) (parse_members n r4) = Some c"
          using A s q k r1 c1 x r3 by (simp del: parse_value.simps)
        then obtain y where y: "parse_members n r4 = Some y"
          by (cases "parse_members n r4") (simp_all add: with_first_def)
        have "parse_members (Suc n) r4 = Some y"
          by (rule m [OF y])
        then show ?thesis
          using B y s q k r1 c1 x' r3 True
          by (simp add: parse_members.simps(2) [of "Suc n"]
              del: parse_value.simps parse_members.simps)
      next
        case False
        then show ?thesis
          using A s q k r1 c1 x x' r3
          by (simp add: parse_members.simps(2) [of "Suc n"] parse_members.simps(2) [of n]
              del: parse_value.simps parse_members.simps)
      qed
    qed
  qed
  show ?case using 1 2 3 by blast
qed

lemma parse_value_mono:
  "parse_value n s = Some a \<Longrightarrow> n \<le> m \<Longrightarrow> parse_value m s = Some a"
  by (induction m) (auto simp: le_Suc_eq simp del: parse_value.simps
      dest: parse_more_fuel [THEN conjunct1, rule_format])

lemma parse_elements_mono:
  "parse_elements n s = Some a \<Longrightarrow> n \<le> m \<Longrightarrow> parse_elements m s = Some a"
  by (induction m) (auto simp: le_Suc_eq simp del: parse_elements.simps
      dest: parse_more_fuel [THEN conjunct2, THEN conjunct1, rule_format])

lemma parse_members_mono:
  "parse_members n s = Some a \<Longrightarrow> n \<le> m \<Longrightarrow> parse_members m s = Some a"
  by (induction m) (auto simp: le_Suc_eq simp del: parse_members.simps
      dest: parse_more_fuel [THEN conjunct2, THEN conjunct2, rule_format])

lemma skip_ws_Cons_length: "skip_ws s = c # t \<Longrightarrow> length t < length s"
  using skip_ws_length [of s] by simp

lemma tagged_Some: "tagged f p = Some (v, r) \<Longrightarrow> \<exists>x. p = Some (x, r) \<and> v = f x"
  by (cases p) (auto simp: tagged_def)

lemma parse_consumes:
  "(parse_value n s = Some (v, r) \<longrightarrow>
      length r < length s \<and> parse_value (length s - length r) s = Some (v, r)) \<and>
   (parse_elements n s = Some (xs, r) \<longrightarrow>
      length r < length s \<and> parse_elements (length s - length r) s = Some (xs, r)) \<and>
   (parse_members n s = Some (kvs, r) \<longrightarrow>
      length r < length s \<and> parse_members (length s - length r) s = Some (kvs, r))"
proof (induction n arbitrary: s v xs kvs r)
  case 0
  show ?case by simp
next
  case (Suc n)
  have IHv: "\<And>s v r. parse_value n s = Some (v, r) \<Longrightarrow>
      length r < length s \<and> parse_value (length s - length r) s = Some (v, r)"
    and IHe: "\<And>s xs r. parse_elements n s = Some (xs, r) \<Longrightarrow>
      length r < length s \<and> parse_elements (length s - length r) s = Some (xs, r)"
    and IHm: "\<And>s kvs r. parse_members n s = Some (kvs, r) \<Longrightarrow>
      length r < length s \<and> parse_members (length s - length r) s = Some (kvs, r)"
    using Suc.IH by blast+
  have 1: "parse_value (Suc n) s = Some (v, r) \<longrightarrow>
      length r < length s \<and> parse_value (length s - length r) s = Some (v, r)"
  proof
    assume A: "parse_value (Suc n) s = Some (v, r)"
    then obtain c t where s: "skip_ws s = c # t"
      by (cases "skip_ws s") auto
    have t: "length t < length s"
      using s by (rule skip_ws_Cons_length)
    consider (str) "c = CHR 0x22"
      | (arr) "c \<noteq> CHR 0x22" "c = CHR ''[''"
      | (obj) "c \<noteq> CHR 0x22" "c \<noteq> CHR ''[''" "c = CHR ''{''"
      | (lit) "c \<noteq> CHR 0x22" "c \<noteq> CHR ''[''" "c \<noteq> CHR ''{''"
      by blast
    then show "length r < length s \<and> parse_value (length s - length r) s = Some (v, r)"
    proof cases
      case str
      then have "tagged JString (parse_chars t) = Some (v, r)"
        using A s by simp
      then obtain x where x: "parse_chars t = Some (x, r)" "v = JString x"
        using tagged_Some by blast
      have len: "length r < length t"
        using x(1) by (rule parse_chars_length)
      then obtain k where k: "length s - length r = Suc k"
        using t by (cases "length s - length r") auto
      show ?thesis
        using len t k s str x by (simp add: tagged_def)
    next
      case arr
      obtain c' t' where t': "skip_ws t = c' # t'"
        using A s arr by (cases "skip_ws t") auto
      have lt': "length t' < length t"
        using t' by (rule skip_ws_Cons_length)
      show ?thesis
      proof (cases "c' = CHR '']''")
        case True
        then have r: "r = t'" "v = JArray []"
          using A s arr t' by simp_all
        obtain k where k: "length s - length r = Suc k"
          using t lt' r by (cases "length s - length r") auto
        show ?thesis
          using k s arr t' True r t lt' by simp
      next
        case False
        then have "tagged JArray (parse_elements n t) = Some (v, r)"
          using A s arr t' by simp
        then obtain x where x: "parse_elements n t = Some (x, r)" "v = JArray x"
          using tagged_Some by blast
        have ih: "length r < length t" "parse_elements (length t - length r) t = Some (x, r)"
          using IHe [OF x(1)] by simp_all
        obtain k where k: "length s - length r = Suc k" "length t - length r \<le> k"
          using t ih(1) by (cases "length s - length r") auto
        have "parse_elements k t = Some (x, r)"
          using parse_elements_mono [OF ih(2) k(2)] .
        then show ?thesis
          using k(1) s arr t' False x(2) t ih(1)
          by (simp add: tagged_def del: parse_elements.simps)
      qed
    next
      case obj
      obtain c' t' where t': "skip_ws t = c' # t'"
        using A s obj by (cases "skip_ws t") auto
      have lt': "length t' < length t"
        using t' by (rule skip_ws_Cons_length)
      show ?thesis
      proof (cases "c' = CHR ''}''")
        case True
        then have r: "r = t'" "v = JObject []"
          using A s obj t' by simp_all
        obtain k where k: "length s - length r = Suc k"
          using t lt' r by (cases "length s - length r") auto
        show ?thesis
          using k s obj t' True r t lt' by simp
      next
        case False
        then have "tagged object_of (parse_members n t) = Some (v, r)"
          using A s obj t' by simp
        then obtain x where x: "parse_members n t = Some (x, r)" "v = object_of x"
          using tagged_Some by blast
        have ih: "length r < length t" "parse_members (length t - length r) t = Some (x, r)"
          using IHm [OF x(1)] by simp_all
        obtain k where k: "length s - length r = Suc k" "length t - length r \<le> k"
          using t ih(1) by (cases "length s - length r") auto
        have "parse_members k t = Some (x, r)"
          using parse_members_mono [OF ih(2) k(2)] .
        then show ?thesis
          using k(1) s obj t' False x(2) t ih(1)
          by (simp add: tagged_def del: parse_members.simps)
      qed
    next
      case lit
      have B: "(case strip ''null'' (c # t) of
                  Some r' \<Rightarrow> Some (JNull, r')
                | None \<Rightarrow>
                    (case strip ''true'' (c # t) of
                       Some r' \<Rightarrow> Some (JBool True, r')
                     | None \<Rightarrow>
                         (case strip ''false'' (c # t) of
                            Some r' \<Rightarrow> Some (JBool False, r')
                          | None \<Rightarrow> None))) = Some (v, r)"
        using A s lit by simp
      then have "strip ''null'' (c # t) = Some r \<or> strip ''true'' (c # t) = Some r \<or>
                 strip ''false'' (c # t) = Some r"
        by (auto simp del: strip.simps split: option.splits)
      then have len: "length r + 4 \<le> length (c # t)"
        using strip_length [of "''null''" "c # t" r] strip_length [of "''true''" "c # t" r]
          strip_length [of "''false''" "c # t" r]
        by (auto simp del: strip.simps)
      then obtain k where k: "length s - length r = Suc k"
        using t by (cases "length s - length r") auto
      show ?thesis
        using k s lit B len t by simp
    qed
  qed
  have 2: "parse_elements (Suc n) s = Some (xs, r) \<longrightarrow>
      length r < length s \<and> parse_elements (length s - length r) s = Some (xs, r)"
  proof
    assume A: "parse_elements (Suc n) s = Some (xs, r)"
    then obtain x r1 where x: "parse_value n s = Some (x, r1)"
      by (cases "parse_value n s") (auto simp del: parse_value.simps)
    have ihx: "length r1 < length s" "parse_value (length s - length r1) s = Some (x, r1)"
      using IHv [OF x] by simp_all
    obtain d r2 where r1: "skip_ws r1 = d # r2"
      using A x by (cases "skip_ws r1") (auto simp del: parse_value.simps)
    have l2: "length r2 < length r1"
      using r1 by (rule skip_ws_Cons_length)
    show "length r < length s \<and> parse_elements (length s - length r) s = Some (xs, r)"
    proof (cases "d = CHR '',''")
      case True
      then have "with_first x (parse_elements n r2) = Some (xs, r)"
        using A x r1 by (simp del: parse_value.simps)
      then obtain ys where ys: "parse_elements n r2 = Some (ys, r)" "xs = x # ys"
        by (cases "parse_elements n r2") (auto simp: with_first_def)
      have ih: "length r < length r2" "parse_elements (length r2 - length r) r2 = Some (ys, r)"
        using IHe [OF ys(1)] by simp_all
      obtain k where k: "length s - length r = Suc k" "length s - length r1 \<le> k"
        "length r2 - length r \<le> k"
        using ihx(1) l2 ih(1) by (cases "length s - length r") auto
      have "parse_value k s = Some (x, r1)" "parse_elements k r2 = Some (ys, r)"
        using parse_value_mono [OF ihx(2) k(2)] parse_elements_mono [OF ih(2) k(3)] by simp_all
      then show ?thesis
        using k(1) r1 True ys(2) ihx(1) l2 ih(1)
        by (simp add: with_first_def del: parse_value.simps parse_elements.simps
            add: parse_elements.simps(2))
    next
      case False
      then have r: "d = CHR '']''" "r = r2" "xs = [x]"
        using A x r1 by (auto simp del: parse_value.simps split: if_splits)
      obtain k where k: "length s - length r = Suc k" "length s - length r1 \<le> k"
        using ihx(1) l2 r(2) by (cases "length s - length r") auto
      have "parse_value k s = Some (x, r1)"
        using parse_value_mono [OF ihx(2) k(2)] .
      then show ?thesis
        using k(1) r1 r ihx(1) l2
        by (simp del: parse_value.simps parse_elements.simps add: parse_elements.simps(2))
    qed
  qed
  have 3: "parse_members (Suc n) s = Some (kvs, r) \<longrightarrow>
      length r < length s \<and> parse_members (length s - length r) s = Some (kvs, r)"
  proof
    assume A: "parse_members (Suc n) s = Some (kvs, r)"
    then obtain q t where s: "skip_ws s = q # t"
      by (cases "skip_ws s") auto
    have q: "q = CHR 0x22"
      using A s by (simp split: if_splits)
    have t: "length t < length s"
      using s by (rule skip_ws_Cons_length)
    obtain k0 r1 where k0: "parse_chars t = Some (k0, r1)"
      using A s q by (cases "parse_chars t") auto
    have l1: "length r1 < length t"
      using k0 by (rule parse_chars_length)
    obtain c1 r2 where r1: "skip_ws r1 = c1 # r2"
      using A s q k0 by (cases "skip_ws r1") auto
    have l2: "length r2 < length r1"
      using r1 by (rule skip_ws_Cons_length)
    have c1: "c1 = CHR '':''"
      using A s q k0 r1 by (simp split: if_splits)
    obtain x r3 where x: "parse_value n r2 = Some (x, r3)"
      using A s q k0 r1 c1 by (cases "parse_value n r2") (auto simp del: parse_value.simps)
    have ihx: "length r3 < length r2" "parse_value (length r2 - length r3) r2 = Some (x, r3)"
      using IHv [OF x] by simp_all
    obtain c3 r4 where r3: "skip_ws r3 = c3 # r4"
      using A s q k0 r1 c1 x by (cases "skip_ws r3") (auto simp del: parse_value.simps)
    have l4: "length r4 < length r3"
      using r3 by (rule skip_ws_Cons_length)
    show "length r < length s \<and> parse_members (length s - length r) s = Some (kvs, r)"
    proof (cases "c3 = CHR '',''")
      case True
      then have "with_first (k0, x) (parse_members n r4) = Some (kvs, r)"
        using A s q k0 r1 c1 x r3 by (simp del: parse_value.simps)
      then obtain ys where ys: "parse_members n r4 = Some (ys, r)" "kvs = (k0, x) # ys"
        by (cases "parse_members n r4") (auto simp: with_first_def)
      have ih: "length r < length r4" "parse_members (length r4 - length r) r4 = Some (ys, r)"
        using IHm [OF ys(1)] by simp_all
      obtain k where k: "length s - length r = Suc k" "length r2 - length r3 \<le> k"
        "length r4 - length r \<le> k"
        using t l1 l2 ihx(1) l4 ih(1) by (cases "length s - length r") auto
      have "parse_value k r2 = Some (x, r3)" "parse_members k r4 = Some (ys, r)"
        using parse_value_mono [OF ihx(2) k(2)] parse_members_mono [OF ih(2) k(3)] by simp_all
      then show ?thesis
        using k(1) s q k0 r1 c1 r3 True ys(2) t l1 l2 ihx(1) l4 ih(1)
        by (simp add: with_first_def del: parse_value.simps parse_members.simps
            add: parse_members.simps(2))
    next
      case False
      then have r: "c3 = CHR ''}''" "r = r4" "kvs = [(k0, x)]"
        using A s q k0 r1 c1 x r3 by (auto simp del: parse_value.simps split: if_splits)
      obtain k where k: "length s - length r = Suc k" "length r2 - length r3 \<le> k"
        using t l1 l2 ihx(1) l4 r(2) by (cases "length s - length r") auto
      have "parse_value k r2 = Some (x, r3)"
        using parse_value_mono [OF ihx(2) k(2)] .
      then show ?thesis
        using k(1) s q k0 r1 c1 r3 r t l1 l2 ihx(1) l4
        by (simp del: parse_value.simps parse_members.simps add: parse_members.simps(2))
    qed
  qed
  show ?case using 1 2 3 by blast
qed

lemma parse_value_fuel:
  "length s \<le> n \<Longrightarrow> parse_value n s = parse_value (length s) s"
proof (cases "parse_value n s")
  case None
  assume n: "length s \<le> n"
  show ?thesis
  proof (cases "parse_value (length s) s")
    case None
    then show ?thesis using \<open>parse_value n s = None\<close> by simp
  next
    case (Some a)
    then show ?thesis
      using parse_value_mono [OF Some n] by simp
  qed
next
  case (Some a)
  obtain v r where a: "a = (v, r)" by (cases a)
  have c: "length r < length s" "parse_value (length s - length r) s = Some (v, r)"
    using parse_consumes [of n s v r] Some a by simp_all
  have "parse_value (length s) s = Some (v, r)"
    using parse_value_mono [OF c(2)] by simp
  then show ?thesis using Some a by simp
qed

section \<open>The stored document\<close>

lemma distinct_keys_PlatformData [simp]: "distinct_keys (PlatformData_json pd)"
  by (simp add: PlatformData_json_def)

lemma distinct_keys_ManUpData [simp]: "distinct_keys (ManUpData_json m)"
  by (simp add: ManUpData_json_def entry_def split: option.splits)

lemma distinct_keys_document [simp]: "distinct_keys document"
  by (simp add: document_def)

lemma JSON_parse_null: "JSON_parse ''null'' = Inr JNull"
  using JSON_roundtrip [of JNull] by simp

text \<open>
  C5. When the retrieval fails (the request or the decoding of its payload) and the
  storage holds a document that was saved before, \<^verbatim>\<open>metadata()\<close> resolves with that
  document, read back from its text, and leaves the service as it was.
\<close>

theorem metadata_cached_fallback:
  assumes "http_get e = Rejected err"
    and "storage s = Some st"
    and "st (STORAGE_KEY @ ''.manup'') = Some (JSON_stringify m)"
    and "distinct_keys m"
  shows "metadata e s = (Resolved m, s)"
  using assms
  by (simp add: metadata_def metadataFromStorage_def returned_def settled_def ToString_def
      JSON_roundtrip)

text \<open>An offline device whose storage holds the example document.\<close>

theorem metadata_cached_fallback_witness:
  "metadata (device ''ios'' ''2.5.0'' (Rejected (Failure ''offline'')) [])
     (new_service (Some [STORAGE_KEY @ ''.manup'' \<mapsto> JSON_stringify document]))
   = (Resolved document,
      new_service (Some [STORAGE_KEY @ ''.manup'' \<mapsto> JSON_stringify document]))"
proof -
  let ?e = "device ''ios'' ''2.5.0'' (Rejected (Failure ''offline'')) []"
  let ?st = "[STORAGE_KEY @ ''.manup'' \<mapsto> JSON_stringify document]"
  have a: "http_get ?e = Rejected (Failure ''offline'')" by simp
  have b: "storage (new_service (Some ?st)) = Some ?st" by simp
  have c: "?st (STORAGE_KEY @ ''.manup'') = Some (JSON_stringify document)" by simp
  have d: "distinct_keys document" by simp
  show ?thesis
    using metadata_cached_fallback [OF a b c d] .
qed

text \<open>
  A storage in which nothing was saved: \<^verbatim>\<open>storage.get\<close> resolves with \<^verbatim>\<open>null\<close>,
  \<^verbatim>\<open>JSON.parse(null)\<close> is \<^verbatim>\<open>null\<close>, and \<^verbatim>\<open>metadataFromStorage()\<close> resolves with it: it
  does not fail. This is the one failure that \<^verbatim>\<open>validate()\<close> lets pass: with the device
  offline it finds the metadata falsy and resolves.
\<close>

theorem metadataFromStorage_nothing_stored_counterexample:
  "metadataFromStorage (new_service (Some Map.empty)) = Inr (Resolved JNull) \<and>
   outcome (validate (device ''ios'' ''2.5.0'' (Rejected (Failure ''offline'')) [])
              (new_service (Some Map.empty))) = Resolved ()"
  by (simp add: metadataFromStorage_def ToString_def JSON_parse_null settled_def
      outcome_first check_def metadata_def returned_def)

text \<open>
  C9, amended. Without a storage \<^verbatim>\<open>metadataFromStorage()\<close> throws ``Storage not
  configured''; with a storage in which nothing was saved under the key it resolves with
  \<^verbatim>\<open>null\<close>, which is no document.
\<close>

theorem metadataFromStorage_cases:
  "(storage s = None \<longrightarrow> metadataFromStorage s = Inl (Error ''Storage not configured'')) \<and>
   (storage s = Some st \<and> st (STORAGE_KEY @ ''.manup'') = None \<longrightarrow>
      metadataFromStorage s = Inr (Resolved JNull))"
  by (simp add: metadataFromStorage_def ToString_def JSON_parse_null settled_def)

theorem metadataFromStorage_cases_witness:
  "metadataFromStorage (new_service None) = Inl (Error ''Storage not configured'') \<and>
   metadataFromStorage (new_service (Some Map.empty)) = Inr (Resolved JNull)"
  using metadataFromStorage_cases [of "new_service None" Map.empty]
    metadataFromStorage_cases [of "new_service (Some Map.empty)" Map.empty]
  by simp

text \<open>
  C10. With a storage, \<^verbatim>\<open>saveMetadata(m)\<close> succeeds and stores the text of \<open>m\<close> under
  the one key \<^verbatim>\<open>com.nextfaze.ionic-manup.manup\<close>, and \<^verbatim>\<open>metadataFromStorage()\<close> after it
  resolves with \<open>m\<close> again: for every value \<open>m\<close> whose objects have no property twice
  (as every JavaScript value), and so for every document \<open>d\<close> of the shape of
  \<^verbatim>\<open>ManUpData\<close>.
\<close>

theorem save_then_load:
  "(storage s = Some st \<and> distinct_keys m \<longrightarrow>
      (\<exists>s'. saveMetadata m s = Inr (Resolved (), s') \<and>
            storage s' = Some (st(''com.nextfaze.ionic-manup.manup'' \<mapsto> JSON_stringify m)) \<and>
            metadataFromStorage s' = Inr (Resolved m))) \<and>
   (storage s = Some st \<longrightarrow>
      (\<exists>s'. saveMetadata (ManUpData_json d) s = Inr (Resolved (), s') \<and>
            metadataFromStorage s' = Inr (Resolved (ManUpData_json d))))"
  by (simp add: saveMetadata_def metadataFromStorage_def STORAGE_KEY_def ToString_def
      settled_def JSON_roundtrip)

text \<open>The example document, saved into an empty storage.\<close>

theorem save_then_load_witness:
  "\<exists>s'. saveMetadata document (new_service (Some Map.empty)) = Inr (Resolved (), s') \<and>
        storage s' = Some [''com.nextfaze.ionic-manup.manup'' \<mapsto> JSON_stringify document] \<and>
        metadataFromStorage s' = Inr (Resolved document)"
  using save_then_load [of "new_service (Some Map.empty)" Map.empty document]
  by simp

end
